theory Spec2Isabelle
  imports Complex_Main
begin

section \<open>odelay: an ODE wrapper with event location (pycse.py)\<close>

text \<open>
  The development embeds the function \<open>odelay\<close> of \<open>pycse.py\<close>. Floating-point numbers
  are idealised as real numbers. The solver \<open>odeint\<close> of scipy and the user's event
  functions are parameters of the model; both are taken to be pure. The diagnostic that
  is printed when the solver reports a failure does not change any value and is left out.
\<close>

subsection \<open>Values, errors and Python indexing\<close>

text \<open>
  The initial condition \<open>y0\<close> is whatever the caller passes (a number or a vector);
  everything \<open>odelay\<close> itself puts into \<open>sol\<close> and \<open>YE\<close> is one component of a solver
  row, hence a number.
\<close>

datatype val = Scalar real | Vec "real list"

text \<open>
  \<open>IndexError\<close> is what Python raises for an index out of range. \<open>DivisionByZero\<close> marks
  the point where the program divides by zero: a Python float raises ZeroDivisionError
  there and a numpy float64 yields inf or nan. The model stops at that division.
\<close>

datatype error = IndexError | DivisionByZero

definition bind_err :: "error + 'a \<Rightarrow> ('a \<Rightarrow> error + 'b) \<Rightarrow> error + 'b" where
  "bind_err m f = (case m of Inl err \<Rightarrow> Inl err | Inr v \<Rightarrow> f v)"

text \<open>\<open>xs[i]\<close> of Python: an index below zero is counted from the end of the list.\<close>

definition py_index :: "'a list \<Rightarrow> int \<Rightarrow> error + 'a" where
  "py_index xs i =
     (if 0 \<le> i \<and> i < int (length xs) then Inr (xs ! nat i)
      else if i < 0 \<and> - int (length xs) \<le> i then Inr (xs ! nat (int (length xs) + i))
      else Inl IndexError)"

text \<open>
  \<open>odeint(func, f1, [x1, x2], **kwargs)[-1]\<close>: the last row of the solver's output,
  that is the state vector at \<open>x2\<close>. The right-hand side \<open>func\<close> and the solver options
  are part of this parameter.
\<close>

type_synonym odeint = "val \<Rightarrow> real \<Rightarrow> real \<Rightarrow> real list"

text \<open>\<open>event(Y, x)\<close> returns \<open>(value, isterminal, direction)\<close>.\<close>

type_synonym event = "val \<Rightarrow> real \<Rightarrow> real \<times> bool \<times> int"

subsection \<open>The state of one call\<close>

text \<open>
  The lists \<open>X\<close>, \<open>sol\<close>, \<open>TE\<close>, \<open>YE\<close>, \<open>IE\<close> and the event matrix \<open>e\<close> (created by
  \<open>np.zeros\<close>, indexed by event and step; every access of the program is in range).
\<close>

record ostate =
  X :: "real list"
  sol :: "val list"
  TE :: "real list"
  YE :: "val list"
  IE :: "nat list"
  e :: "nat \<Rightarrow> nat \<Rightarrow> real"

definition set_e :: "(nat \<Rightarrow> nat \<Rightarrow> real) \<Rightarrow> nat \<Rightarrow> nat \<Rightarrow> real \<Rightarrow> (nat \<Rightarrow> nat \<Rightarrow> real)" where
  "set_e em j i v = em(j := (em j)(i := v))"

text \<open>Lines 85-87: the event values at the initial point fill column 0.\<close>

definition init_e :: "event list \<Rightarrow> val \<Rightarrow> real \<Rightarrow> (nat \<Rightarrow> nat \<Rightarrow> real)" where
  "init_e events y0 x0 =
     foldl (\<lambda>em (i, event). set_e em i 0 (fst (event y0 x0))) (\<lambda>j i. 0) (enumerate 0 events)"

subsection \<open>The refinement loop (lines 121-189)\<close>

text \<open>The local variables of the loop: the last point \<open>Lt\<close> and the previous point \<open>Pt\<close>.\<close>

record bracket =
  xLt :: real
  fLt :: val
  eLt :: real
  xPt :: real
  fPt :: val
  ePt :: real
  isterminal :: bool
  direction :: int

text \<open>Lines 131-140; \<open>e1\<close> is \<open>e[j, i + 1]\<close> and \<open>e0\<close> is \<open>e[j, i]\<close>.\<close>

definition collectevent :: "int \<Rightarrow> real \<Rightarrow> real \<Rightarrow> bool" where
  "collectevent dir e1 e0 =
     (if dir = 0 then True
      else if e1 > e0 \<and> dir = 1 then True
      else if e1 < e0 \<and> dir = - 1 then True
      else False)"

text \<open>
  One pass through the body of \<open>while k < 100\<close>: it leaves the loop by \<open>break\<close> (with the
  lists as they are then and the value of \<open>ISTERMINAL\<close>), or starts the next pass by
  \<open>continue\<close> (\<open>k\<close> unchanged), or reaches \<open>k += 1\<close>.
\<close>

datatype iter = Break ostate bool | Again bracket | Next bracket

definition refine_body :: "odeint \<Rightarrow> event \<Rightarrow> real \<Rightarrow> nat \<Rightarrow> nat \<Rightarrow> ostate \<Rightarrow> bracket \<Rightarrow> error + iter" where
  "refine_body od event TOLERANCE j i st b =
     (if \<bar>xLt b - xPt b\<bar> < TOLERANCE then
        (if collectevent (direction b) (e st j (i + 1)) (e st j i)
         then Inr (Break (st\<lparr>TE := TE st @ [xLt b], YE := YE st @ [fLt b], IE := IE st @ [j]\<rparr>)
                         (isterminal b))
         else Inr (Break st False))
      else if xPt b - xLt b = 0 then Inl DivisionByZero
      else
        (let m = (ePt b - eLt b) / (xPt b - xLt b) in
         if m = 0 then Inl DivisionByZero
         else
           (let new_x = - ePt b / m + xPt b in
            if \<bar>new_x - xPt b\<bar> < TOLERANCE then Inr (Again (b\<lparr>xLt := new_x\<rparr>))
            else
              bind_err (py_index (od (fPt b) (xPt b) new_x) (- 1)) (\<lambda>c.
                (let new_f = Scalar c;
                     (new_e, it, dir) = event new_f new_x
                 in if eLt b * new_e > 0
                    then Inr (Next (b\<lparr>xPt := new_x, fPt := new_f, ePt := new_e,
                                      isterminal := it, direction := dir\<rparr>))
                    else Inr (Next (b\<lparr>xLt := new_x, fLt := new_f, eLt := new_e,
                                      isterminal := it, direction := dir\<rparr>)))))))"

text \<open>
  The loop. It returns the lists, \<open>ISTERMINAL\<close>, and the values of \<open>k\<close> and of the
  bracket variables when the loop is left. \<open>ISTERMINAL\<close> is False when the loop ends
  because \<open>k\<close> has reached 100.
\<close>

function refine :: "odeint \<Rightarrow> event \<Rightarrow> real \<Rightarrow> nat \<Rightarrow> nat \<Rightarrow> ostate \<Rightarrow> nat \<Rightarrow> bracket
    \<Rightarrow> error + (ostate \<times> bool \<times> nat \<times> bracket)" where
  "refine od event TOLERANCE j i st k b =
     (if k < 100 then
        (case refine_body od event TOLERANCE j i st b of
           Inl err \<Rightarrow> Inl err
         | Inr (Break st' t) \<Rightarrow> Inr (st', t, k, b)
         | Inr (Again b') \<Rightarrow> refine od event TOLERANCE j i st k b'
         | Inr (Next b') \<Rightarrow> refine od event TOLERANCE j i st (k + 1) b')
      else Inr (st, False, k, b))"
  by pat_completeness auto

termination
proof (relation "measure (\<lambda>(od, event, TOLERANCE, j, i, st, k, b).
    2 * (100 - k) + (if \<bar>xLt b - xPt b\<bar> < TOLERANCE then 0 else 1))", goal_cases)
  case 1
  show ?case by simp
next
  case (2 od event TOLERANCE j i st k b x2 b')
  from 2 have "\<not> \<bar>xLt b - xPt b\<bar> < TOLERANCE \<and> \<bar>xLt b' - xPt b'\<bar> < TOLERANCE"
    by (auto simp: refine_body_def Let_def bind_err_def
        split: if_splits sum.splits prod.splits)
  then show ?case by auto
next
  case (3 od event TOLERANCE j i st k b x2 b')
  then show ?case by auto
qed

declare refine.simps [simp del]

subsection \<open>One event at one grid step (lines 106-199)\<close>

text \<open>
  The body of \<open>for j, event in enumerate(events)\<close> either goes on with the loops or
  executes the \<open>return\<close> of line 199.
\<close>

datatype ctl = Continue ostate | Return ostate

text \<open>
  Lines 113-199, entered when a change of sign has been detected; \<open>it\<close> and \<open>dir\<close> are
  the values of \<open>isterminal\<close> and \<open>direction\<close> assigned in line 106. \<open>del X[-1], sol[-1]\<close>
  removes the last element of lists that line 113 and 114 have just read.
\<close>

definition locate :: "odeint \<Rightarrow> real \<Rightarrow> nat \<Rightarrow> ostate \<Rightarrow> nat \<Rightarrow> event \<Rightarrow> bool \<Rightarrow> int \<Rightarrow> error + ctl" where
  "locate od TOLERANCE i st j event it dir =
     bind_err (py_index (X st) (- 1)) (\<lambda>xl.
     bind_err (py_index (sol st) (- 1)) (\<lambda>fl.
     bind_err (py_index (X st) (- 2)) (\<lambda>xp.
     bind_err (py_index (sol st) (- 2)) (\<lambda>fp.
     bind_err (refine od event TOLERANCE j i st 0
                 \<lparr>xLt = xl, fLt = fl, eLt = e st j (i + 1),
                  xPt = xp, fPt = fp, ePt = e st j i,
                  isterminal = it, direction = dir\<rparr>) (\<lambda>(st', ISTERMINAL, k, b).
       if ISTERMINAL then
         bind_err (py_index (TE st') (- 1)) (\<lambda>te.
         bind_err (py_index (YE st') (- 1)) (\<lambda>ye.
           Inr (Return (st'\<lparr>X := butlast (X st') @ [te], sol := butlast (sol st') @ [ye]\<rparr>))))
       else Inr (Continue st'))))))"

definition check_event :: "odeint \<Rightarrow> real \<Rightarrow> nat \<Rightarrow> ostate \<Rightarrow> nat \<Rightarrow> event \<Rightarrow> error + ctl" where
  "check_event od TOLERANCE i st j event =
     bind_err (py_index (sol st) (int i + 1)) (\<lambda>s1.
     bind_err (py_index (X st) (int i + 1)) (\<lambda>x1.
       (let (v, it, dir) = event s1 x1;
            st1 = st\<lparr>e := set_e (e st) j (i + 1) v\<rparr>
        in if e st1 j (i + 1) * e st1 j i < 0
           then locate od TOLERANCE i st1 j event it dir
           else Inr (Continue st1))))"

fun events_loop :: "odeint \<Rightarrow> real \<Rightarrow> nat \<Rightarrow> (nat \<times> event) list \<Rightarrow> ostate \<Rightarrow> error + ctl" where
  "events_loop od TOLERANCE i [] st = Inr (Continue st)"
| "events_loop od TOLERANCE i ((j, event) # rest) st =
     (case check_event od TOLERANCE i st j event of
        Inl err \<Rightarrow> Inl err
      | Inr (Return st') \<Rightarrow> Inr (Return st')
      | Inr (Continue st') \<Rightarrow> events_loop od TOLERANCE i rest st')"

subsection \<open>The grid loop (lines 90-201)\<close>

text \<open>Lines 91-102: one solver step; component 0 of the new state is appended.\<close>

definition grid_step :: "odeint \<Rightarrow> real list \<Rightarrow> nat \<Rightarrow> real \<Rightarrow> ostate \<Rightarrow> error + ostate" where
  "grid_step od xspan i x1 st =
     bind_err (py_index xspan (int i + 1)) (\<lambda>x2.
     bind_err (py_index (sol st) (int i)) (\<lambda>f1.
     bind_err (py_index (od f1 x1 x2) 0) (\<lambda>c.
       Inr (st\<lparr>X := X st @ [x2], sol := sol st @ [Scalar c]\<rparr>))))"

fun steps_loop :: "odeint \<Rightarrow> real \<Rightarrow> real list \<Rightarrow> event list \<Rightarrow> (nat \<times> real) list \<Rightarrow> ostate
    \<Rightarrow> error + ctl" where
  "steps_loop od TOLERANCE xspan events [] st = Inr (Continue st)"
| "steps_loop od TOLERANCE xspan events ((i, x1) # rest) st =
     (case grid_step od xspan i x1 st of
        Inl err \<Rightarrow> Inl err
      | Inr st1 \<Rightarrow>
          (case events_loop od TOLERANCE i (enumerate 0 events) st1 of
             Inl err \<Rightarrow> Inl err
           | Inr (Return st2) \<Rightarrow> Inr (Return st2)
           | Inr (Continue st2) \<Rightarrow> steps_loop od TOLERANCE xspan events rest st2))"

subsection \<open>odelay\<close>

text \<open>
  \<open>odelay_ctl\<close> is the whole function and also tells which of the two \<open>return\<close>
  statements ended the call; \<open>xspan[0:-2]\<close> is the grid without its last two points.
  Lines 75-76 read \<open>xspan[0]\<close> and \<open>xspan[-1]\<close>; the values \<open>xf\<close> and \<open>f0 = func(y0, x0)\<close> are
  not used afterwards.
\<close>

definition odelay_ctl :: "odeint \<Rightarrow> val \<Rightarrow> real list \<Rightarrow> event list \<Rightarrow> real \<Rightarrow> error + ctl" where
  "odelay_ctl od y0 xspan events TOLERANCE =
     bind_err (py_index xspan 0) (\<lambda>x0.
     bind_err (py_index xspan (- 1)) (\<lambda>xf.
       steps_loop od TOLERANCE xspan events
         (enumerate 0 (take (length xspan - 2) xspan))
         \<lparr>X = [x0], sol = [y0], TE = [], YE = [], IE = [], e = init_e events y0 x0\<rparr>))"

type_synonym result = "real list \<times> val list \<times> real list \<times> val list \<times> nat list"

fun returned :: "ctl \<Rightarrow> result" where
  "returned (Continue st) = (X st, sol st, TE st, YE st, IE st)"
| "returned (Return st) = (X st, sol st, TE st, YE st, IE st)"

definition odelay :: "odeint \<Rightarrow> val \<Rightarrow> real list \<Rightarrow> event list \<Rightarrow> real \<Rightarrow> error + result" where
  "odelay od y0 xspan events TOLERANCE =
     bind_err (odelay_ctl od y0 xspan events TOLERANCE) (\<lambda>c. Inr (returned c))"


subsection \<open>Concrete solvers, events and states\<close>

text \<open>
  \<open>flat_od\<close> solves \<open>dy/dx = 0\<close>; \<open>two_od\<close> is the solution \<open>(x, 5)\<close> of the
  two-dimensional system \<open>dy1/dx = 1\<close>, \<open>dy2/dx = 0\<close> through \<open>(0, 5)\<close> at \<open>x = 0\<close>.
\<close>

definition flat_od :: odeint where
  "flat_od y a b = (case y of Scalar c \<Rightarrow> [c] | Vec v \<Rightarrow> v)"

definition two_od :: odeint where
  "two_od y a b = [b, 5]"

text \<open>Event values \<open>1 - 2 x\<^sup>2\<close>, \<open>x - c\<close> and a step at \<open>x = 1/4\<close>.\<close>

definition parabola :: event where
  "parabola y x = (1 - 2 * x * x, False, 0)"

definition affine_event :: "real \<Rightarrow> bool \<Rightarrow> int \<Rightarrow> event" where
  "affine_event c t d y x = (x - c, t, d)"

definition step_event :: event where
  "step_event y x = ((if x < 1 / 4 then 1 else - 1), False, 0)"

text \<open>
  The state after the first grid step from \<open>x = 0\<close> to \<open>x = 1\<close> with \<open>two_od\<close> and
  \<open>y0 = (0, 5)\<close>, with the values \<open>v0\<close> and \<open>v1\<close> of event 0 at the two points.
\<close>

definition ex_state :: "real \<Rightarrow> real \<Rightarrow> ostate" where
  "ex_state v0 v1 = \<lparr>X = [0, 1], sol = [Vec [0, 5], Scalar 1], TE = [], YE = [], IE = [],
     e = set_e (set_e (\<lambda>j i. 0) 0 0 v0) 0 1 v1\<rparr>"

text \<open>
  The state in which the call on the grid \<open>0, 1, 2\<close> with \<open>two_od\<close> returns when the
  terminal event \<open>x - 10\<^sup>-\<^sup>7\<close> is accepted.
\<close>

definition term_state :: ostate where
  "term_state = (ex_state (- 1 / 10000000) (1 - 1 / 10000000))
     \<lparr>X := [0, 1 / 10000000], sol := [Vec [0, 5], Scalar 1],
      TE := [1 / 10000000], YE := [Scalar 1], IE := [0]\<rparr>"

section \<open>Auxiliary facts\<close>

lemma bind_err_Inr [simp]: "bind_err (Inr v) f = f v"
  by (simp add: bind_err_def)

lemma bind_err_Inl [simp]: "bind_err (Inl err) f = Inl err"
  by (simp add: bind_err_def)

lemma bind_err_eq_Inr: "bind_err m f = Inr r \<longleftrightarrow> (\<exists>v. m = Inr v \<and> f v = Inr r)"
  by (cases m) simp_all

lemma py_index_nat:
  "py_index xs (int n) = (if n < length xs then Inr (xs ! n) else Inl IndexError)"
  by (simp add: py_index_def)

lemma py_index_nat_Suc:
  "py_index xs (int n + 1) = (if Suc n < length xs then Inr (xs ! Suc n) else Inl IndexError)"
  using py_index_nat [of xs "Suc n"] by (simp add: add.commute)

lemma py_index_zero:
  "py_index xs 0 = (case xs of [] \<Rightarrow> Inl IndexError | x # _ \<Rightarrow> Inr x)"
  by (cases xs) (simp_all add: py_index_def)

lemma py_index_last:
  "py_index xs (- 1) = (if xs = [] then Inl IndexError else Inr (last xs))"
proof (cases xs rule: rev_cases)
  case Nil
  then show ?thesis by (simp add: py_index_def)
next
  case (snoc ys y)
  then show ?thesis by (simp add: py_index_def nat_add_distrib nth_append)
qed

lemma py_index_last2: "py_index (xs @ [a, b]) (- 2) = Inr a"
  by (simp add: py_index_def nth_append nat_diff_distrib)

lemmas run_defs = odelay_def odelay_ctl_def py_index_def Let_def
  grid_step_def check_event_def locate_def init_e_def set_e_def
  refine.simps refine_body_def collectevent_def

subsection \<open>The refinement loop\<close>


lemma refine_body_Break:
  "refine_body od event TOLERANCE j i st b = Inr (Break st' t) \<longleftrightarrow>
     \<bar>xLt b - xPt b\<bar> < TOLERANCE \<and>
     (if collectevent (direction b) (e st j (i + 1)) (e st j i)
      then st' = st\<lparr>TE := TE st @ [xLt b], YE := YE st @ [fLt b], IE := IE st @ [j]\<rparr>
         \<and> t = isterminal b
      else st' = st \<and> \<not> t)"
  by (auto simp: refine_body_def Let_def bind_err_eq_Inr split: if_splits prod.splits)

lemma refine_body_Next:
  assumes "refine_body od event TOLERANCE j i st b = Inr (Next b')"
  shows "\<exists>new_x c new_e it dir.
     py_index (od (fPt b) (xPt b) new_x) (- 1) = Inr c \<and> event (Scalar c) new_x = (new_e, it, dir) \<and>
     (if eLt b * new_e > 0
      then b' = b\<lparr>xPt := new_x, fPt := Scalar c, ePt := new_e, isterminal := it, direction := dir\<rparr>
      else b' = b\<lparr>xLt := new_x, fLt := Scalar c, eLt := new_e, isterminal := it, direction := dir\<rparr>)"
proof -
  define x where "x = - ePt b / ((ePt b - eLt b) / (xPt b - xLt b)) + xPt b"
  from assms have "\<exists>c. py_index (od (fPt b) (xPt b) x) (- 1) = Inr c
    \<and> (case event (Scalar c) x of (new_e, it, dir) \<Rightarrow>
         if eLt b * new_e > 0
         then Inr (Next (b\<lparr>xPt := x, fPt := Scalar c, ePt := new_e,
                           isterminal := it, direction := dir\<rparr>))
         else Inr (Next (b\<lparr>xLt := x, fLt := Scalar c, eLt := new_e,
                           isterminal := it, direction := dir\<rparr>))) = (Inr (Next b') :: error + iter)"
    unfolding refine_body_def Let_def x_def [symmetric]
    by (simp add: bind_err_eq_Inr split: if_splits)
  then obtain c where c: "py_index (od (fPt b) (xPt b) x) (- 1) = Inr c"
    and nx: "(case event (Scalar c) x of (new_e, it, dir) \<Rightarrow>
         if eLt b * new_e > 0
         then Inr (Next (b\<lparr>xPt := x, fPt := Scalar c, ePt := new_e,
                           isterminal := it, direction := dir\<rparr>))
         else Inr (Next (b\<lparr>xLt := x, fLt := Scalar c, eLt := new_e,
                           isterminal := it, direction := dir\<rparr>))) = (Inr (Next b') :: error + iter)"
    by blast
  obtain new_e it dir where ev: "event (Scalar c) x = (new_e, it, dir)"
    by (cases "event (Scalar c) x") auto
  from nx ev c show ?thesis
    by (intro exI [of _ x] exI [of _ c] exI [of _ new_e] exI [of _ it] exI [of _ dir])
      (auto split: if_splits)
qed

text \<open>
  How the loop is left: by \<open>break\<close> with \<open>k\<close> below 100, or with \<open>k\<close> at 100 and the
  lists untouched.
\<close>

lemma refine_result:
  "refine od event TOLERANCE j i st k b = Inr (st', t, kf, bf) \<Longrightarrow>
     k \<le> kf \<and> (k \<le> 100 \<longrightarrow> kf \<le> 100) \<and>
     (kf < 100 \<longrightarrow> refine_body od event TOLERANCE j i st bf = Inr (Break st' t)) \<and>
     (100 \<le> kf \<longrightarrow> st' = st \<and> \<not> t)"
proof (induction od event TOLERANCE j i st k b rule: refine.induct)
  case (1 od event TOLERANCE j i st k b)
  show ?case
  proof (cases "k < 100")
    case False
    with "1.prems" show ?thesis by (simp add: refine.simps)
  next
    case True
    show ?thesis
    proof (cases "refine_body od event TOLERANCE j i st b")
      case (Inl err)
      with True "1.prems" show ?thesis by (simp add: refine.simps)
    next
      case (Inr it)
      show ?thesis
      proof (cases it)
        case (Break s u)
        with True Inr "1.prems" show ?thesis by (auto simp: refine.simps)
      next
        case (Again b')
        with True Inr "1.prems" "1.IH"(1) [OF True Inr Again] show ?thesis
          by (simp add: refine.simps)
      next
        case (Next b')
        with True Inr "1.prems" "1.IH"(2) [OF True Inr Next] show ?thesis
          by (simp add: refine.simps)
      qed
    qed
  qed
qed

text \<open>With at least two samples in \<open>X\<close> and \<open>sol\<close>, lines 113-119 read the last two.\<close>

lemma locate_eq:
  assumes "X st = xs @ [xp, xl]" and "sol st = fs @ [fp, fl]"
  shows "locate od TOLERANCE i st j event it dir =
     bind_err (refine od event TOLERANCE j i st 0
                 \<lparr>xLt = xl, fLt = fl, eLt = e st j (i + 1),
                  xPt = xp, fPt = fp, ePt = e st j i,
                  isterminal = it, direction = dir\<rparr>) (\<lambda>(st', ISTERMINAL, k, b).
       if ISTERMINAL then
         bind_err (py_index (TE st') (- 1)) (\<lambda>te.
         bind_err (py_index (YE st') (- 1)) (\<lambda>ye.
           Inr (Return (st'\<lparr>X := butlast (X st') @ [te], sol := butlast (sol st') @ [ye]\<rparr>))))
       else Inr (Continue st'))"
  using assms py_index_last2 [of xs xp xl] py_index_last2 [of fs fp fl]
  by (simp add: locate_def py_index_last)

subsection \<open>Calls in which no event changes sign\<close>

lemma set_e_nonneg:
  "\<forall>j i. 0 \<le> em j i \<Longrightarrow> 0 \<le> v \<Longrightarrow> \<forall>j i. 0 \<le> set_e em j' i' v j i"
  by (simp add: set_e_def)

lemma foldl_set_e_nonneg:
  "\<forall>j i. 0 \<le> em j i \<Longrightarrow> \<forall>event \<in> snd ` set jes. \<forall>y x. 0 \<le> fst (event y x) \<Longrightarrow>
     \<forall>j i. 0 \<le> foldl (\<lambda>em (i, event). set_e em i 0 (fst (event y0 x0))) em jes j i"
proof (induction jes arbitrary: em)
  case Nil
  then show ?case by simp
next
  case (Cons je jes)
  obtain j event where je: "je = (j, event)" by (cases je)
  with Cons.prems have "0 \<le> fst (event y0 x0)" by simp
  with Cons.prems(1) have "\<forall>j' i. 0 \<le> set_e em j 0 (fst (event y0 x0)) j' i"
    by (rule set_e_nonneg)
  moreover from Cons.prems(2) have "\<forall>event \<in> snd ` set jes. \<forall>y x. 0 \<le> fst (event y x)"
    by simp
  ultimately show ?case using Cons.IH je by simp
qed

lemma init_e_nonneg:
  assumes "\<forall>event \<in> set events. \<forall>y x. 0 \<le> fst (event y x)"
  shows "\<forall>j i. 0 \<le> init_e events y0 x0 j i"
proof -
  have "\<forall>j i. (0::real) \<le> (\<lambda>j i. 0) j i" by simp
  moreover from assms
  have "\<forall>event \<in> snd ` set (enumerate 0 events). \<forall>y x. 0 \<le> fst (event y x)"
    by (auto simp: in_set_enumerate_eq)
  ultimately show ?thesis
    unfolding init_e_def by (rule foldl_set_e_nonneg)
qed

lemma check_event_nonneg:
  assumes "\<forall>y x. 0 \<le> fst (event y x)" and "\<forall>j i. 0 \<le> e st j i"
    and "Suc k < length (X st)" and "Suc k < length (sol st)"
  shows "\<exists>v. 0 \<le> v \<and> check_event od TOLERANCE k st j event
     = Inr (Continue (st\<lparr>e := set_e (e st) j (k + 1) v\<rparr>))"
proof -
  obtain v it dir where ev: "event (sol st ! Suc k) (X st ! Suc k) = (v, it, dir)"
    by (cases "event (sol st ! Suc k) (X st ! Suc k)") auto
  with assms(1) have v: "0 \<le> v" by (metis fst_conv)
  with assms(2) have "\<not> v * e st j k < 0"
    by (simp add: mult_less_0_iff not_less)
  with ev v assms(3,4) show ?thesis
    by (intro exI [of _ v]) (simp add: check_event_def py_index_nat_Suc set_e_def)
qed

lemma events_loop_nonneg:
  "\<forall>event \<in> snd ` set jes. \<forall>y x. 0 \<le> fst (event y x) \<Longrightarrow> \<forall>j i. 0 \<le> e st j i \<Longrightarrow>
   Suc k < length (X st) \<Longrightarrow> Suc k < length (sol st) \<Longrightarrow>
   \<exists>st'. events_loop od TOLERANCE k jes st = Inr (Continue st') \<and> (\<forall>j i. 0 \<le> e st' j i)
     \<and> X st' = X st \<and> sol st' = sol st \<and> TE st' = TE st \<and> YE st' = YE st \<and> IE st' = IE st"
proof (induction jes arbitrary: st)
  case Nil
  then show ?case by simp
next
  case (Cons je jes)
  obtain j event where je: "je = (j, event)" by (cases je)
  with Cons.prems(1) have "\<forall>y x. 0 \<le> fst (event y x)" by simp
  from check_event_nonneg [OF this Cons.prems(2,3,4), of od TOLERANCE j] obtain v where
    v: "0 \<le> v" and c: "check_event od TOLERANCE k st j event
      = Inr (Continue (st\<lparr>e := set_e (e st) j (k + 1) v\<rparr>))"
    by blast
  let ?st1 = "st\<lparr>e := set_e (e st) j (k + 1) v\<rparr>"
  have "\<forall>j i. 0 \<le> e ?st1 j i"
    using set_e_nonneg [OF Cons.prems(2) v] by simp
  moreover have "\<forall>event \<in> snd ` set jes. \<forall>y x. 0 \<le> fst (event y x)"
    using Cons.prems(1) by simp
  moreover have "Suc k < length (X ?st1)" "Suc k < length (sol ?st1)"
    using Cons.prems(3,4) by simp_all
  ultimately obtain st' where "events_loop od TOLERANCE k jes ?st1 = Inr (Continue st')"
    "\<forall>j i. 0 \<le> e st' j i" "X st' = X ?st1" "sol st' = sol ?st1"
    "TE st' = TE ?st1" "YE st' = YE ?st1" "IE st' = IE ?st1"
    using Cons.IH [of ?st1] by blast
  with c je show ?case by simp
qed

lemma steps_loop_nonneg:
  assumes "\<forall>y a b. od y a b \<noteq> []"
    and "\<forall>event \<in> set events. \<forall>y x. 0 \<le> fst (event y x)"
  shows "k + length zs < length xspan \<Longrightarrow> length (sol st) = Suc k \<Longrightarrow> length (X st) = Suc k \<Longrightarrow>
    \<forall>j i. 0 \<le> e st j i \<Longrightarrow>
    \<exists>st'. steps_loop od TOLERANCE xspan events (enumerate k zs) st = Inr (Continue st')
      \<and> X st' = X st @ take (length zs) (drop (Suc k) xspan)
      \<and> length (sol st') = length (sol st) + length zs
      \<and> TE st' = TE st \<and> YE st' = YE st \<and> IE st' = IE st"
proof (induction zs arbitrary: k st)
  case Nil
  then show ?case by simp
next
  case (Cons z zs)
  obtain c cs where row: "od (sol st ! k) z (xspan ! Suc k) = c # cs"
    using assms(1) by (meson list.exhaust)
  let ?st1 = "st\<lparr>X := X st @ [xspan ! Suc k], sol := sol st @ [Scalar c]\<rparr>"
  have step: "grid_step od xspan k z st = Inr ?st1"
    using Cons.prems row by (simp add: grid_step_def py_index_nat py_index_nat_Suc py_index_zero)
  have "\<forall>event \<in> snd ` set (enumerate 0 events). \<forall>y x. 0 \<le> fst (event y x)"
    using assms(2) by (auto simp: in_set_enumerate_eq)
  moreover have "\<forall>j i. 0 \<le> e ?st1 j i" "Suc k < length (X ?st1)" "Suc k < length (sol ?st1)"
    using Cons.prems by simp_all
  ultimately obtain st2 where
    evs: "events_loop od TOLERANCE k (enumerate 0 events) ?st1 = Inr (Continue st2)"
    and st2: "\<forall>j i. 0 \<le> e st2 j i" "X st2 = X ?st1" "sol st2 = sol ?st1"
      "TE st2 = TE ?st1" "YE st2 = YE ?st1" "IE st2 = IE ?st1"
    using events_loop_nonneg [of "enumerate 0 events" ?st1 k od TOLERANCE] by blast
  have "Suc k + length zs < length xspan" "length (sol st2) = Suc (Suc k)"
    "length (X st2) = Suc (Suc k)"
    using Cons.prems st2 by simp_all
  from Cons.IH [OF this st2(1)] obtain st' where
    run: "steps_loop od TOLERANCE xspan events (enumerate (Suc k) zs) st2 = Inr (Continue st')"
    and X': "X st' = X st2 @ take (length zs) (drop (Suc (Suc k)) xspan)"
    and rest: "length (sol st') = length (sol st2) + length zs"
      "TE st' = TE st2" "YE st' = YE st2" "IE st' = IE st2"
    by blast
  have "take (length (z # zs)) (drop (Suc k) xspan)
      = xspan ! Suc k # take (length zs) (drop (Suc (Suc k)) xspan)"
    using Cons.prems by (simp add: Cons_nth_drop_Suc [symmetric])
  then show ?case using step evs run X' rest st2 by simp
qed

text \<open>
  Events whose values are never negative (they may be zero at any grid point) start no
  refinement: with a solver whose states are not empty, the call returns the grid without
  its last point (and the one point of a one-point grid) and an empty event log.
\<close>

lemma odelay_no_sign_change:
  assumes "\<forall>y a b. od y a b \<noteq> []"
    and "\<forall>event \<in> set events. \<forall>y x. 0 \<le> fst (event y x)"
  shows "\<exists>s. odelay od y0 (x0 # xs) events TOLERANCE = Inr (x0 # butlast xs, s, [], [], [])
     \<and> length s = Suc (length xs - 1)"
proof -
  let ?xspan = "x0 # xs"
  let ?init = "\<lparr>X = [x0], sol = [y0], TE = [], YE = [], IE = [], e = init_e events y0 x0\<rparr>"
  let ?zs = "take (length ?xspan - 2) ?xspan"
  have len: "length ?zs = length xs - 1" by simp
  have "0 + length ?zs < length ?xspan" "length (sol ?init) = Suc 0" "length (X ?init) = Suc 0"
    "\<forall>j i. 0 \<le> e ?init j i"
    using init_e_nonneg [OF assms(2)] by simp_all
  from steps_loop_nonneg [OF assms this, of TOLERANCE] obtain st' where
    run: "steps_loop od TOLERANCE ?xspan events (enumerate 0 ?zs) ?init = Inr (Continue st')"
    and st': "X st' = X ?init @ take (length ?zs) (drop (Suc 0) ?xspan)"
      "length (sol st') = length (sol ?init) + length ?zs"
      "TE st' = TE ?init" "YE st' = YE ?init" "IE st' = IE ?init"
    by blast
  have "X st' = x0 # butlast xs"
    using st'(1) unfolding len by (simp add: butlast_conv_take)
  moreover have "length (sol st') = Suc (length xs - 1)"
    using st'(2) unfolding len by simp
  ultimately show ?thesis
    using run st'(3-5)
    by (simp add: odelay_def odelay_ctl_def py_index_zero py_index_last)
qed

lemma odelay_no_events:
  assumes "\<forall>y a b. od y a b \<noteq> []"
  shows "\<exists>s. odelay od y0 (x0 # xs) [] TOLERANCE = Inr (x0 # butlast xs, s, [], [], [])
     \<and> length s = Suc (length xs - 1)"
  using odelay_no_sign_change [OF assms, of "[]"] by simp

subsection \<open>The event loop and the grid loop\<close>

lemma locate_Continue:
  assumes "locate od TOLERANCE i st j event it dir = Inr (Continue st')"
  shows "X st' = X st \<and> sol st' = sol st \<and> e st' = e st"
proof -
  from assms obtain xl fl xp fp kf bf where
    r: "refine od event TOLERANCE j i st 0
          \<lparr>xLt = xl, fLt = fl, eLt = e st j (i + 1), xPt = xp, fPt = fp, ePt = e st j i,
           isterminal = it, direction = dir\<rparr> = Inr (st', False, kf, bf)"
    by (auto simp: locate_def bind_err_eq_Inr split: if_splits)
  from refine_result [OF r] show ?thesis
    by (cases "kf < 100") (auto simp: refine_body_Break split: if_splits)
qed

lemma locate_Return:
  assumes "locate od TOLERANCE i st j event it dir = Inr (Return r)"
  shows "\<exists>bf::bracket. isterminal bf \<and>
     r = st\<lparr>X := butlast (X st) @ [xLt bf], sol := butlast (sol st) @ [fLt bf],
            TE := TE st @ [xLt bf], YE := YE st @ [fLt bf], IE := IE st @ [j]\<rparr>"
proof -
  from assms obtain xl fl xp fp st' kf bf where
    r: "refine od event TOLERANCE j i st 0
          \<lparr>xLt = xl, fLt = fl, eLt = e st j (i + 1), xPt = xp, fPt = fp, ePt = e st j i,
           isterminal = it, direction = dir\<rparr> = Inr (st', True, kf, bf)"
    and ret: "bind_err (py_index (TE st') (- 1)) (\<lambda>te.
         bind_err (py_index (YE st') (- 1)) (\<lambda>ye.
           (Inr (Return (st'\<lparr>X := butlast (X st') @ [te], sol := butlast (sol st') @ [ye]\<rparr>))
             :: error + ctl))) = Inr (Return r)"
    by (auto simp: locate_def bind_err_eq_Inr split: if_splits)
  from refine_result [OF r] have "kf < 100"
    by (cases "kf < 100") auto
  with refine_result [OF r] have
    st': "st' = st\<lparr>TE := TE st @ [xLt bf], YE := YE st @ [fLt bf], IE := IE st @ [j]\<rparr>"
    and "isterminal bf"
    by (auto simp: refine_body_Break split: if_splits)
  with ret have "isterminal bf \<and>
     r = st\<lparr>X := butlast (X st) @ [xLt bf], sol := butlast (sol st) @ [fLt bf],
            TE := TE st @ [xLt bf], YE := YE st @ [fLt bf], IE := IE st @ [j]\<rparr>"
    by (auto simp: py_index_last)
  then show ?thesis by blast
qed

lemma check_event_Inr:
  assumes "check_event od TOLERANCE i st j event = Inr c"
  shows "\<exists>v it dir. c = Continue (st\<lparr>e := set_e (e st) j (i + 1) v\<rparr>)
     \<or> locate od TOLERANCE i (st\<lparr>e := set_e (e st) j (i + 1) v\<rparr>) j event it dir = Inr c"
proof -
  from assms obtain s1 x1 where
    body: "(let (v, it, dir) = event s1 x1;
            st1 = st\<lparr>e := set_e (e st) j (i + 1) v\<rparr>
        in if e st1 j (i + 1) * e st1 j i < 0
           then locate od TOLERANCE i st1 j event it dir
           else Inr (Continue st1)) = Inr c"
    by (auto simp: check_event_def bind_err_eq_Inr)
  obtain v it dir where "event s1 x1 = (v, it, dir)"
    by (cases "event s1 x1") auto
  with body show ?thesis
    by (auto simp: Let_def split: if_splits)
qed

lemma check_event_Continue:
  assumes "check_event od TOLERANCE i st j event = Inr (Continue st')"
  shows "X st' = X st \<and> sol st' = sol st"
proof -
  from check_event_Inr [OF assms] obtain v it dir where
    "st' = st\<lparr>e := set_e (e st) j (i + 1) v\<rparr>
     \<or> locate od TOLERANCE i (st\<lparr>e := set_e (e st) j (i + 1) v\<rparr>) j event it dir
        = Inr (Continue st')"
    by auto
  then show ?thesis
    by (auto dest: locate_Continue)
qed

lemma check_event_Return:
  assumes "check_event od TOLERANCE i st j event = Inr (Return r)"
  shows "\<exists>bf::bracket. isterminal bf \<and>
     X r = butlast (X st) @ [xLt bf] \<and> sol r = butlast (sol st) @ [fLt bf] \<and>
     TE r = TE st @ [xLt bf] \<and> YE r = YE st @ [fLt bf] \<and> IE r = IE st @ [j]"
proof -
  from check_event_Inr [OF assms] obtain v it dir where
    "locate od TOLERANCE i (st\<lparr>e := set_e (e st) j (i + 1) v\<rparr>) j event it dir
        = Inr (Return r)"
    by auto
  from locate_Return [OF this] show ?thesis by auto
qed

lemma events_loop_Continue:
  "events_loop od TOLERANCE i jes st = Inr (Continue st') \<Longrightarrow> X st' = X st \<and> sol st' = sol st"
proof (induction jes arbitrary: st)
  case Nil
  then show ?case by simp
next
  case (Cons je jes)
  obtain j event where je: "je = (j, event)" by (cases je)
  from Cons.prems je obtain st1 where
    c: "check_event od TOLERANCE i st j event = Inr (Continue st1)"
    and l: "events_loop od TOLERANCE i jes st1 = Inr (Continue st')"
    by (auto split: sum.splits ctl.splits)
  from Cons.IH [OF l] check_event_Continue [OF c] show ?case by simp
qed

lemma events_loop_Return:
  "events_loop od TOLERANCE i jes st = Inr (Return r) \<Longrightarrow>
     TE r \<noteq> [] \<and> YE r \<noteq> [] \<and> IE r \<noteq> [] \<and> last (IE r) \<in> fst ` set jes \<and>
     X r = butlast (X st) @ [last (TE r)] \<and> sol r = butlast (sol st) @ [last (YE r)]"
proof (induction jes arbitrary: st)
  case Nil
  then show ?case by simp
next
  case (Cons je jes)
  obtain j event where je: "je = (j, event)" by (cases je)
  show ?case
  proof (cases "check_event od TOLERANCE i st j event")
    case (Inl err)
    with Cons.prems je show ?thesis by simp
  next
    case (Inr c)
    show ?thesis
    proof (cases c)
      case (Continue st1)
      with Inr Cons.prems je have l: "events_loop od TOLERANCE i jes st1 = Inr (Return r)"
        by simp
      from Inr Continue have "check_event od TOLERANCE i st j event = Inr (Continue st1)"
        by simp
      from check_event_Continue [OF this] Cons.IH [OF l] show ?thesis by auto
    next
      case (Return r')
      with Inr Cons.prems je have "check_event od TOLERANCE i st j event = Inr (Return r)"
        by simp
      from check_event_Return [OF this] je show ?thesis by auto
    qed
  qed
qed

lemma grid_step_Inr:
  assumes "grid_step od xspan i x1 st = Inr st1"
  shows "Suc i < length xspan \<and> i < length (sol st) \<and> od (sol st ! i) x1 (xspan ! Suc i) \<noteq> [] \<and>
     st1 = st\<lparr>X := X st @ [xspan ! Suc i],
              sol := sol st @ [Scalar (hd (od (sol st ! i) x1 (xspan ! Suc i)))]\<rparr>"
  using assms
  by (auto simp: grid_step_def bind_err_eq_Inr py_index_nat py_index_nat_Suc py_index_zero
      split: if_splits list.splits)

lemma steps_loop_Return:
  "steps_loop od TOLERANCE xspan events (enumerate k zs) st = Inr (Return r) \<Longrightarrow>
     X st = take (Suc k) xspan \<Longrightarrow> length (sol st) = Suc k \<Longrightarrow>
     k + length zs < length xspan - 1 \<Longrightarrow>
     TE r \<noteq> [] \<and> YE r \<noteq> [] \<and> IE r \<noteq> [] \<and> last (IE r) < length events \<and>
     last (X r) = last (TE r) \<and> last (sol r) = last (YE r) \<and>
     length (X r) = length (sol r) \<and> 2 \<le> length (X r) \<and> length (X r) < length xspan \<and>
     butlast (X r) = take (length (X r) - 1) xspan"
proof (induction zs arbitrary: k st)
  case Nil
  then show ?case by simp
next
  case (Cons z zs)
  show ?case
  proof (cases "grid_step od xspan k z st")
    case (Inl err)
    with Cons.prems(1) show ?thesis by simp
  next
    case (Inr st1)
    from grid_step_Inr [OF Inr] Cons.prems(2,3)
    have st1: "X st1 = take (Suc (Suc k)) xspan" "length (sol st1) = Suc (Suc k)"
      by (simp_all add: take_Suc_conv_app_nth)
    show ?thesis
    proof (cases "events_loop od TOLERANCE k (enumerate 0 events) st1")
      case (Inl err)
      with Inr Cons.prems(1) show ?thesis by simp
    next
      case evs: (Inr c)
      show ?thesis
      proof (cases c)
        case (Continue st2)
        with Inr evs Cons.prems(1)
        have l: "steps_loop od TOLERANCE xspan events (enumerate (Suc k) zs) st2 = Inr (Return r)"
          by simp
        from evs Continue have "events_loop od TOLERANCE k (enumerate 0 events) st1 = Inr (Continue st2)"
          by simp
        from events_loop_Continue [OF this] st1
        have "X st2 = take (Suc (Suc k)) xspan" "length (sol st2) = Suc (Suc k)" by simp_all
        moreover from Cons.prems(4) have "Suc k + length zs < length xspan - 1" by simp
        ultimately show ?thesis using Cons.IH [OF l] by blast
      next
        case (Return r')
        with Inr evs Cons.prems(1)
        have "events_loop od TOLERANCE k (enumerate 0 events) st1 = Inr (Return r)" by simp
        from events_loop_Return [OF this]
        have r: "TE r \<noteq> []" "YE r \<noteq> []" "IE r \<noteq> []"
          "last (IE r) \<in> fst ` set (enumerate 0 events)"
          "X r = butlast (X st1) @ [last (TE r)]" "sol r = butlast (sol st1) @ [last (YE r)]"
          by simp_all
        from r(4) have "last (IE r) < length events"
          by (auto simp: in_set_enumerate_eq)
        moreover from Cons.prems(4) have "Suc (Suc k) < length xspan" by simp
        ultimately show ?thesis using r st1
          by (simp add: butlast_take)
      qed
    qed
  qed
qed

subsection \<open>Which state a crossing is recorded with\<close>





section \<open>The claims\<close>

text \<open>
  C1. The claim: a call on a grid of \<open>n \<ge> 2\<close> points in which no terminal event is
  accepted returns one sample per grid point, and a grid of exactly two points gives a
  two-sample trajectory and an empty event log. The loop of line 90 runs over
  \<open>xspan[0:-2]\<close>, so the last interval of the grid is never integrated: on every grid of
  two points, whatever the events are, the call returns the initial sample alone.
\<close>

theorem odelay_two_point_grid:
  "odelay od y0 [a, b] events TOLERANCE = Inr ([a], [y0], [], [], [])"
  by (simp add: odelay_def odelay_ctl_def py_index_zero py_index_last)

text \<open>
  C2. The claim: when \<open>valueLeft * valueNew > 0\<close> the left endpoint is replaced by the
  trial point, otherwise the right one, so that a bracket with a change of sign keeps
  it. Line 178 tests the value of the last (right) point, \<open>eLt * new_e > 0\<close>, and then
  replaces the previous (left) point. For the event value \<open>1 - 2 x\<^sup>2\<close> between \<open>x = 0\<close>
  (value 1) and \<open>x = 1\<close> (value -1) the trial point is \<open>1/2\<close> with value \<open>1/2\<close>; the code
  replaces the right endpoint, and both endpoint values are positive afterwards.
\<close>

theorem bracket_lost_at_first_trial:
  "refine_body flat_od parabola (1 / 1000000) 0 0 st
     \<lparr>xLt = 1, fLt = Scalar 1, eLt = - 1, xPt = 0, fPt = Scalar 1, ePt = 1,
      isterminal = False, direction = 0\<rparr>
   = Inr (Next \<lparr>xLt = 1 / 2, fLt = Scalar 1, eLt = 1 / 2, xPt = 0, fPt = Scalar 1, ePt = 1,
      isterminal = False, direction = 0\<rparr>)"
  by (simp add: refine_body_def Let_def flat_od_def parabola_def py_index_last)

text \<open>In general no trial keeps the change of sign between the two endpoints.\<close>

lemma bracket_never_kept:
  assumes "refine_body od event TOLERANCE j i st b = Inr (Next b')" and "ePt b * eLt b < 0"
  shows "0 \<le> ePt b' * eLt b'"
proof -
  from refine_body_Next [OF assms(1)] obtain new_x c new_e it dir where
    b': "if eLt b * new_e > 0
      then b' = b\<lparr>xPt := new_x, fPt := Scalar c, ePt := new_e, isterminal := it, direction := dir\<rparr>
      else b' = b\<lparr>xLt := new_x, fLt := Scalar c, eLt := new_e, isterminal := it, direction := dir\<rparr>"
    by blast
  show ?thesis
  proof (cases "eLt b * new_e > 0")
    case True
    with b' show ?thesis by (simp add: mult.commute)
  next
    case False
    with b' have eq: "ePt b' = ePt b" "eLt b' = new_e" by simp_all
    from False have "eLt b * new_e \<le> 0" by simp
    with assms(2) have "0 \<le> ePt b * new_e"
      by (auto simp: mult_less_0_iff mult_le_0_iff zero_le_mult_iff)
    with eq show ?thesis by simp
  qed
qed

text \<open>
  C3. The claim: when the refinement loop reaches its cap of 100 passes, the current
  right endpoint is still handed to the acceptance policy and recorded if accepted, and
  the integration goes on. The code records a crossing only in the branch that finds the
  bracket narrower than the tolerance. For the event value \<open>x - 1/2\<close> with direction 0 the
  first trial point is the root itself, the previous point never moves, the loop runs to
  the cap, and the event log stays empty.
\<close>

theorem cap_reached_counterexample:
  "odelay flat_od (Scalar 1) [0, 1, 2] [affine_event (1 / 2) False 0] (1 / 1000000)
     = Inr ([0, 1], [Scalar 1, Scalar 1], [], [], [])"
  by (simp add: run_defs flat_od_def affine_event_def)

text \<open>
  C3 as amended: when the loop is left with \<open>k\<close> at the cap, the crossing is dropped:
  nothing is recorded, \<open>ISTERMINAL\<close> is False, and the event loop goes on with the state
  it had (the call does not fail).
\<close>

theorem cap_drops_crossing:
  assumes "X st = xs @ [xp, xl]" and "sol st = fs @ [fp, fl]"
    and "refine od event TOLERANCE j i st 0
           \<lparr>xLt = xl, fLt = fl, eLt = e st j (i + 1), xPt = xp, fPt = fp, ePt = e st j i,
            isterminal = it, direction = dir\<rparr> = Inr (st', t, kf, bf)"
    and "100 \<le> kf"
  shows "kf = 100 \<and> st' = st \<and> \<not> t
     \<and> locate od TOLERANCE i st j event it dir = Inr (Continue st)"
proof -
  from refine_result [OF assms(3)] assms(4) have "st' = st" "\<not> t" "kf = 100" by simp_all
  with assms(3) show ?thesis
    by (simp add: locate_eq [OF assms(1,2)])
qed

theorem cap_drops_crossing_witness:
  "X (ex_state (- 1 / 2) (1 / 2)) = [0, 1]
   \<and> locate flat_od (1 / 1000000) 0 (ex_state (- 1 / 2) (1 / 2)) 0
       (affine_event (1 / 2) False 0) False 0
     = Inr (Continue (ex_state (- 1 / 2) (1 / 2)))"
proof -
  let ?st = "ex_state (- 1 / 2) (1 / 2)"
  let ?b = "\<lparr>xLt = 1 / 2, fLt = Scalar 5, eLt = 0, xPt = 0, fPt = Vec [0, 5], ePt = - 1 / 2,
            isterminal = False, direction = 0\<rparr>"
  have h1: "X ?st = [] @ [0, 1]" and h2: "sol ?st = [] @ [Vec [0, 5], Scalar 1]"
    by (simp_all add: ex_state_def)
  have h3: "refine flat_od (affine_event (1 / 2) False 0) (1 / 1000000) 0 0 ?st 0
           \<lparr>xLt = 1, fLt = Scalar 1, eLt = e ?st 0 (0 + 1), xPt = 0, fPt = Vec [0, 5],
            ePt = e ?st 0 0, isterminal = False, direction = 0\<rparr> = Inr (?st, False, 100, ?b)"
    by (simp add: run_defs ex_state_def flat_od_def affine_event_def)
  from cap_drops_crossing [OF h1 h2 h3] h1 show ?thesis by simp
qed

text \<open>
  C4. When an event is accepted with \<open>isterminal\<close> true, that is when the refinement
  loop ends with \<open>ISTERMINAL\<close> true, the last sample is removed from \<open>X\<close> and \<open>sol\<close>, the
  recorded event point takes its place, and the call returns at once (first part). A call
  that ends by this \<open>return\<close> has a non-empty event log, its last sample is the last
  event record, the samples before it are grid points, and the trajectory is shorter than
  the grid (second part).
\<close>

theorem terminal_event_returns:
  "(X st = xs @ [xp, xl] \<and> sol st = fs @ [fp, fl] \<and>
      refine od event TOLERANCE j i st 0
        \<lparr>xLt = xl, fLt = fl, eLt = e st j (i + 1), xPt = xp, fPt = fp, ePt = e st j i,
         isterminal = it, direction = dir\<rparr> = Inr (st', True, kf, bf)
    \<longrightarrow> locate od TOLERANCE i st j event it dir
        = Inr (Return (st\<lparr>X := xs @ [xp, xLt bf], sol := fs @ [fp, fLt bf],
             TE := TE st @ [xLt bf], YE := YE st @ [fLt bf], IE := IE st @ [j]\<rparr>)))
   \<and> (odelay_ctl od y0 xspan events TOLERANCE = Inr (Return r)
    \<longrightarrow> TE r \<noteq> [] \<and> YE r \<noteq> [] \<and> IE r \<noteq> [] \<and> last (IE r) < length events \<and>
        last (X r) = last (TE r) \<and> last (sol r) = last (YE r) \<and>
        length (X r) = length (sol r) \<and> 2 \<le> length (X r) \<and> length (X r) < length xspan \<and>
        butlast (X r) = take (length (X r) - 1) xspan)"
proof (rule conjI; rule impI)
  assume a: "X st = xs @ [xp, xl] \<and> sol st = fs @ [fp, fl] \<and>
      refine od event TOLERANCE j i st 0
        \<lparr>xLt = xl, fLt = fl, eLt = e st j (i + 1), xPt = xp, fPt = fp, ePt = e st j i,
         isterminal = it, direction = dir\<rparr> = Inr (st', True, kf, bf)"
  then have X: "X st = xs @ [xp, xl]" and S: "sol st = fs @ [fp, fl]"
    and r: "refine od event TOLERANCE j i st 0
        \<lparr>xLt = xl, fLt = fl, eLt = e st j (i + 1), xPt = xp, fPt = fp, ePt = e st j i,
         isterminal = it, direction = dir\<rparr> = Inr (st', True, kf, bf)"
    by simp_all
  from refine_result [OF r] have "kf < 100" by (cases "kf < 100") auto
  with refine_result [OF r]
  have "st' = st\<lparr>TE := TE st @ [xLt bf], YE := YE st @ [fLt bf], IE := IE st @ [j]\<rparr>"
    by (auto simp: refine_body_Break split: if_splits)
  with r X S show "locate od TOLERANCE i st j event it dir
        = Inr (Return (st\<lparr>X := xs @ [xp, xLt bf], sol := fs @ [fp, fLt bf],
             TE := TE st @ [xLt bf], YE := YE st @ [fLt bf], IE := IE st @ [j]\<rparr>))"
    by (simp add: locate_eq [OF X S] py_index_last butlast_append)
next
  assume a: "odelay_ctl od y0 xspan events TOLERANCE = Inr (Return r)"
  then obtain x0 where x0: "py_index xspan 0 = Inr x0"
    and run: "steps_loop od TOLERANCE xspan events
         (enumerate 0 (take (length xspan - 2) xspan))
         \<lparr>X = [x0], sol = [y0], TE = [], YE = [], IE = [], e = init_e events y0 x0\<rparr>
       = Inr (Return r)"
    by (auto simp: odelay_ctl_def bind_err_eq_Inr)
  let ?st0 = "\<lparr>X = [x0], sol = [y0], TE = [], YE = [], IE = [], e = init_e events y0 x0\<rparr>"
  from x0 have X0: "X ?st0 = take (Suc 0) xspan"
    by (cases xspan) (simp_all add: py_index_zero)
  have S0: "length (sol ?st0) = Suc 0" by simp
  have "take (length xspan - 2) xspan \<noteq> []"
    using run by (cases "take (length xspan - 2) xspan") simp_all
  then have "0 + length (take (length xspan - 2) xspan) < length xspan - 1"
    by (cases xspan) auto
  from steps_loop_Return [OF run X0 S0 this]
  show "TE r \<noteq> [] \<and> YE r \<noteq> [] \<and> IE r \<noteq> [] \<and> last (IE r) < length events \<and>
        last (X r) = last (TE r) \<and> last (sol r) = last (YE r) \<and>
        length (X r) = length (sol r) \<and> 2 \<le> length (X r) \<and> length (X r) < length xspan \<and>
        butlast (X r) = take (length (X r) - 1) xspan" by simp
qed

theorem terminal_event_returns_witness:
  "odelay_ctl two_od (Vec [0, 5]) [0, 1, 2] [affine_event (1 / 10000000) True 0] (1 / 1000000)
     = Inr (Return term_state)
   \<and> locate two_od (1 / 1000000) 0 (ex_state (- 1 / 10000000) (1 - 1 / 10000000)) 0
       (affine_event (1 / 10000000) True 0) True 0 = Inr (Return term_state)
   \<and> last (X term_state) = last (TE term_state) \<and> last (sol term_state) = last (YE term_state)"
proof -
  let ?st = "ex_state (- 1 / 10000000) (1 - 1 / 10000000)"
  let ?ev = "affine_event (1 / 10000000) True 0"
  let ?bf = "\<lparr>xLt = 1 / 10000000, fLt = Scalar 1, eLt = 1 - 1 / 10000000, xPt = 0, fPt = Vec [0, 5],
             ePt = - 1 / 10000000, isterminal = True, direction = 0\<rparr>"
  have h1: "X ?st = [] @ [0, 1]" and h2: "sol ?st = [] @ [Vec [0, 5], Scalar 1]"
    by (simp_all add: ex_state_def)
  have h3: "refine two_od ?ev (1 / 1000000) 0 0 ?st 0
        \<lparr>xLt = 1, fLt = Scalar 1, eLt = e ?st 0 (0 + 1), xPt = 0, fPt = Vec [0, 5], ePt = e ?st 0 0,
         isterminal = True, direction = 0\<rparr>
      = Inr (?st\<lparr>TE := [1 / 10000000], YE := [Scalar 1], IE := [0]\<rparr>, True, 0, ?bf)"
    by (simp add: run_defs ex_state_def two_od_def affine_event_def)
  have h4: "odelay_ctl two_od (Vec [0, 5]) [0, 1, 2] [?ev] (1 / 1000000) = Inr (Return term_state)"
    by (simp add: run_defs ex_state_def term_state_def two_od_def affine_event_def)
  from terminal_event_returns [of ?st "[]" 0 1 "[]" "Vec [0, 5]" "Scalar 1" two_od ?ev
      "1 / 1000000" 0 0 True 0 _ 0 ?bf "Vec [0, 5]" "[0, 1, 2]" "[?ev]" term_state] h1 h2 h3 h4
  show ?thesis
    by (simp add: ex_state_def term_state_def)
qed

text \<open>
  C5. The claim: a grid with fewer than two points or one that is not strictly monotonic
  makes the call fail with an InvalidArgument condition before any step. The code does
  not look at the grid: a grid of one point returns the initial sample.
\<close>

theorem one_point_grid_accepted:
  "odelay flat_od (Scalar 1) [0] [] (1 / 1000000) = Inr ([0], [Scalar 1], [], [], [])"
  by (simp add: run_defs)

text \<open>
  C5 as amended: the grid is not validated. An empty grid fails with IndexError when
  \<open>xspan[0]\<close> is read, before any step; a grid of one point returns the initial sample
  without an error; any other grid, monotonic or not, is stepped through (without events
  and with a solver whose states are not empty, the call returns).
\<close>

theorem grid_not_validated:
  "odelay od y0 [] events TOLERANCE = Inl IndexError
   \<and> odelay od y0 [x0] events TOLERANCE = Inr ([x0], [y0], [], [], [])
   \<and> ((\<forall>y a b. od y a b \<noteq> []) \<longrightarrow> (\<exists>r. odelay od y0 (x0 # xs) [] TOLERANCE = Inr r))"
proof (intro conjI impI)
  show "odelay od y0 [] events TOLERANCE = Inl IndexError"
    by (simp add: odelay_def odelay_ctl_def py_index_zero)
  show "odelay od y0 [x0] events TOLERANCE = Inr ([x0], [y0], [], [], [])"
    by (simp add: odelay_def odelay_ctl_def py_index_zero py_index_last)
  assume "\<forall>y a b. od y a b \<noteq> []"
  from odelay_no_events [OF this, of y0 x0 xs TOLERANCE]
  show "\<exists>r. odelay od y0 (x0 # xs) [] TOLERANCE = Inr r" by blast
qed

theorem grid_not_validated_witness:
  "(\<exists>r. odelay two_od (Vec [0, 5]) [0, 2, 1, 5] [] (1 / 1000000) = Inr r)
   \<and> odelay two_od (Vec [0, 5]) [] [] (1 / 1000000) = Inl IndexError"
proof -
  have ne: "\<forall>y a b. two_od y a b \<noteq> []" by (simp add: two_od_def)
  show ?thesis
    using ne grid_not_validated [of two_od "Vec [0, 5]" "[]" "1 / 1000000" 0 "[2, 1, 5]"]
    by simp
qed

text \<open>
  C6. The claim: when the denominator of the secant slope is zero or nearly zero, the
  refinement of that bracket is given up and the right endpoint is used, and no
  non-finite \<open>x\<close> reaches the solver or the event log. Lines 153-157 divide without any
  test. For an event value that steps from 1 to -1 at \<open>x = 1/4\<close> the first trial makes
  both endpoint values -1, the slope is zero in the next pass, and the call ends at the
  division \<open>-ePt / m\<close> instead of falling back to the right endpoint.
\<close>

theorem zero_slope_counterexample:
  "odelay flat_od (Scalar 1) [0, 1, 2] [step_event] (1 / 1000000) = Inl DivisionByZero"
  by (simp add: run_defs flat_od_def step_event_def)

text \<open>
  C6 as amended: the loop has no guard on the slope. A pass that finds the bracket not
  yet narrower than the tolerance and has \<open>xPt = xLt\<close> or \<open>ePt = eLt\<close> divides by zero;
  there is no fallback to the right endpoint.
\<close>

theorem zero_slope_unguarded:
  assumes "k < 100" and "\<not> \<bar>xLt b - xPt b\<bar> < TOLERANCE" and "xPt b = xLt b \<or> ePt b = eLt b"
  shows "refine od event TOLERANCE j i st k b = Inl DivisionByZero"
  using assms by (subst refine.simps) (auto simp: refine_body_def)

theorem zero_slope_unguarded_witness:
  "refine flat_od step_event (1 / 1000000) 0 0 (ex_state 1 (- 1)) 1
     \<lparr>xLt = 1, fLt = Scalar 1, eLt = - 1, xPt = 1 / 2, fPt = Scalar 1, ePt = - 1,
      isterminal = False, direction = 0\<rparr> = Inl DivisionByZero"
  using zero_slope_unguarded [of 1 "\<lparr>xLt = 1, fLt = Scalar 1, eLt = - 1, xPt = 1 / 2,
      fPt = Scalar 1, ePt = - 1, isterminal = False, direction = 0\<rparr>" "1 / 1000000"
      flat_od step_event 0 0 "ex_state 1 (- 1)"]
  by simp









end
